theory Spec2Isabelle
  imports Complex_Main
begin

section \<open>Floating-point cells\<close>

text \<open>
  A cell of a pandas float column. \<open>NaN\<close> is the missing-data marker; \<open>PInf\<close> and
  \<open>NInf\<close> are the IEEE infinities. Finite values are idealised as exact reals: rounding
  and overflow are not modelled, and zero is unsigned (taken as \<open>+0\<close>).
\<close>

datatype fval = Fin real | PInf | NInf | NaN

text \<open>IEEE division \<open>a / b\<close> as numpy evaluates it elementwise (no exception is raised).\<close>

fun fdiv :: "fval \<Rightarrow> fval \<Rightarrow> fval" where
  "fdiv NaN b = NaN"
| "fdiv a NaN = NaN"
| "fdiv (Fin x) (Fin y) =
     (if y = 0 then (if x = 0 then NaN else if 0 < x then PInf else NInf) else Fin (x / y))"
| "fdiv (Fin x) PInf = Fin 0"
| "fdiv (Fin x) NInf = Fin 0"
| "fdiv PInf (Fin y) = (if 0 \<le> y then PInf else NInf)"
| "fdiv NInf (Fin y) = (if 0 \<le> y then NInf else PInf)"
| "fdiv PInf PInf = NaN"
| "fdiv PInf NInf = NaN"
| "fdiv NInf PInf = NaN"
| "fdiv NInf NInf = NaN"

text \<open>IEEE addition \<open>a + b\<close>.\<close>

fun fadd :: "fval \<Rightarrow> fval \<Rightarrow> fval" where
  "fadd NaN b = NaN"
| "fadd a NaN = NaN"
| "fadd (Fin x) (Fin y) = Fin (x + y)"
| "fadd (Fin x) PInf = PInf"
| "fadd (Fin x) NInf = NInf"
| "fadd PInf (Fin y) = PInf"
| "fadd NInf (Fin y) = NInf"
| "fadd PInf PInf = PInf"
| "fadd NInf NInf = NInf"
| "fadd PInf NInf = NaN"
| "fadd NInf PInf = NaN"

text \<open>IEEE subtraction \<open>a - b\<close>.\<close>

fun fsub :: "fval \<Rightarrow> fval \<Rightarrow> fval" where
  "fsub NaN b = NaN"
| "fsub a NaN = NaN"
| "fsub (Fin x) (Fin y) = Fin (x - y)"
| "fsub (Fin x) PInf = NInf"
| "fsub (Fin x) NInf = PInf"
| "fsub PInf (Fin y) = PInf"
| "fsub NInf (Fin y) = NInf"
| "fsub PInf NInf = PInf"
| "fsub NInf PInf = NInf"
| "fsub PInf PInf = NaN"
| "fsub NInf NInf = NaN"

text \<open>IEEE multiplication \<open>a * b\<close>.\<close>

fun fmul :: "fval \<Rightarrow> fval \<Rightarrow> fval" where
  "fmul NaN b = NaN"
| "fmul a NaN = NaN"
| "fmul (Fin x) (Fin y) = Fin (x * y)"
| "fmul (Fin x) PInf = (if x = 0 then NaN else if 0 < x then PInf else NInf)"
| "fmul (Fin x) NInf = (if x = 0 then NaN else if 0 < x then NInf else PInf)"
| "fmul PInf (Fin y) = (if y = 0 then NaN else if 0 < y then PInf else NInf)"
| "fmul NInf (Fin y) = (if y = 0 then NaN else if 0 < y then NInf else PInf)"
| "fmul PInf PInf = PInf"
| "fmul NInf NInf = PInf"
| "fmul PInf NInf = NInf"
| "fmul NInf PInf = NInf"

text \<open>\<open>np.log\<close>: \<open>-inf\<close> at zero and \<open>nan\<close> below zero (numpy warns, it does not raise).\<close>

fun flog :: "fval \<Rightarrow> fval" where
  "flog NaN = NaN"
| "flog (Fin x) = (if 0 < x then Fin (ln x) else if x = 0 then NInf else NaN)"
| "flog PInf = PInf"
| "flog NInf = NaN"

section \<open>Frames\<close>

text \<open>
  A pandas \<open>DataFrame\<close> of float columns: the row labels (timestamps) and the named
  columns, each holding one cell per row label. The result of a column-wise reduction
  (\<open>prod\<close>, \<open>sum\<close>) is a pandas \<open>Series\<close> keyed by column name, kept as an association
  list in column order.
\<close>

record frame =
  index :: "nat list"
  columns :: "(string \<times> fval list) list"

type_synonym reduced = "(string \<times> fval) list"

definition map_columns :: "(fval list \<Rightarrow> fval list) \<Rightarrow> frame \<Rightarrow> frame" where
  "map_columns f fr = fr\<lparr>columns := map (\<lambda>(name, c). (name, f c)) (columns fr)\<rparr>"

text \<open>\<open>x.shift(1)\<close>: every cell moves one row down, the first row becomes \<open>NaN\<close>.\<close>

definition shift1 :: "fval list \<Rightarrow> fval list" where
  "shift1 c = take (length c) (NaN # c)"

text \<open>\<open>x / x.shift(1)\<close>, elementwise.\<close>

definition ratio_col :: "fval list \<Rightarrow> fval list" where
  "ratio_col c = map2 fdiv c (shift1 c)"

text \<open>Forward fill (\<open>fillna(method='pad')\<close>): a \<open>NaN\<close> takes the last value seen above it.\<close>

fun ffill_from :: "fval \<Rightarrow> fval list \<Rightarrow> fval list" where
  "ffill_from prev [] = []"
| "ffill_from prev (v # vs) =
     (if v = NaN then prev # ffill_from prev vs else v # ffill_from v vs)"

definition ffill :: "fval list \<Rightarrow> fval list" where
  "ffill c = ffill_from NaN c"

text \<open>
  \<open>pct_change()\<close> is called with its defaults. Up to pandas 2 the default
  \<open>fill_method\<close> is \<open>'pad'\<close> (prices are forward filled first); from pandas 3 on nothing
  is filled. The library version is not fixed by the repository, so the default is a
  parameter. In both cases the result is \<open>data / data.shift(1) - 1\<close>.
\<close>

datatype fill_method = Pad | NoFill

definition pct_col :: "fval list \<Rightarrow> fval list" where
  "pct_col c = map (\<lambda>v. fsub v (Fin 1)) (ratio_col c)"

definition pct_change :: "fill_method \<Rightarrow> frame \<Rightarrow> frame" where
  "pct_change fm prices =
     (let data = (case fm of Pad \<Rightarrow> map_columns ffill prices | NoFill \<Rightarrow> prices)
      in map_columns pct_col data)"

text \<open>
  \<open>dropna()\<close> with its defaults (\<open>axis=0, how='any'\<close>): a row is kept iff no column holds
  \<open>NaN\<close> in it. Infinities are not missing values and stay.
\<close>

definition row_mask :: "nat \<Rightarrow> (string \<times> fval list) list \<Rightarrow> bool list" where
  "row_mask n cols =
     foldr (\<lambda>(name, c) m. map2 (\<and>) (map (\<lambda>v. v \<noteq> NaN) c) m) cols (replicate n True)"

definition select_rows :: "bool list \<Rightarrow> 'a list \<Rightarrow> 'a list" where
  "select_rows m xs = map fst (filter snd (zip xs m))"

definition dropna :: "frame \<Rightarrow> frame" where
  "dropna fr =
     (let m = row_mask (length (index fr)) (columns fr)
      in \<lparr>index = select_rows m (index fr),
          columns = map (\<lambda>(name, c). (name, select_rows m c)) (columns fr)\<rparr>)"

section \<open>Return calculations (\<open>src/utils.py\<close>)\<close>

text \<open>\<open>simple_returns\<close>: \<open>prices.pct_change().dropna()\<close>.\<close>

definition simple_returns :: "fill_method \<Rightarrow> frame \<Rightarrow> frame" where
  "simple_returns fm prices = dropna (pct_change fm prices)"

text \<open>\<open>continuously_compound_returns\<close>:
  \<open>prices.apply(lambda x: np.log(x / x.shift(1))).dropna()\<close>.\<close>

definition log_col :: "fval list \<Rightarrow> fval list" where
  "log_col x = map flog (ratio_col x)"

definition continuously_compound_returns :: "frame \<Rightarrow> frame" where
  "continuously_compound_returns prices = dropna (map_columns log_col prices)"

text \<open>
  \<open>prod()\<close> and \<open>sum()\<close> with their defaults (\<open>skipna=True, min_count=0\<close>): pandas
  replaces \<open>NaN\<close> by the neutral element and reduces the column, so an empty column gives
  the neutral element.
\<close>

definition prod_col :: "fval list \<Rightarrow> fval" where
  "prod_col c = foldl fmul (Fin 1) (map (\<lambda>v. if v = NaN then Fin 1 else v) c)"

definition sum_col :: "fval list \<Rightarrow> fval" where
  "sum_col c = foldl fadd (Fin 0) (map (\<lambda>v. if v = NaN then Fin 0 else v) c)"

text \<open>\<open>compound_simple_returns_over_period\<close>: \<open>(1 + returns).prod() - 1\<close>.\<close>

definition compound_simple_returns_over_period :: "frame \<Rightarrow> reduced" where
  "compound_simple_returns_over_period returns =
     map (\<lambda>(name, c). (name, fsub (prod_col (map (fadd (Fin 1)) c)) (Fin 1))) (columns returns)"

text \<open>\<open>compound_continuous_returns_over_period\<close>: \<open>returns.sum()\<close>.\<close>

definition compound_continuous_returns_over_period :: "frame \<Rightarrow> reduced" where
  "compound_continuous_returns_over_period returns =
     map (\<lambda>(name, c). (name, sum_col c)) (columns returns)"

section \<open>Resolving the universe and fetching prices (\<open>get_snp_500_values_per_company\<close>)\<close>

text \<open>Python exceptions that the function can meet. \<open>Raised\<close> is any other exception
  (a subclass of \<open>Exception\<close>) coming out of a library call.\<close>

datatype exn =
    RuntimeError string
  | IndexError
  | KeyError string
  | AttributeError
  | ValueError string
  | Raised string

subsection \<open>The constituent table\<close>

text \<open>A parsed HTML table: named columns of cells; a cell holds text or is empty
  (\<open>NaN\<close>). \<open>astype(str)\<close> turns an empty cell into the text \<open>nan\<close>.\<close>

datatype cell = CStr string | CNaN

type_synonym html_table = "(string \<times> cell list) list"

fun astype_str :: "cell \<Rightarrow> string" where
  "astype_str (CStr s) = s"
| "astype_str CNaN = ''nan''"

text \<open>
  \<open>sp500_table['Symbol'].astype(str).tolist()\<close>: no column of that name raises
  \<open>KeyError\<close>; one column gives a Series and its list; with several columns of that
  name the selection is a DataFrame, which has no \<open>tolist\<close>.
\<close>

definition symbol_column :: "html_table \<Rightarrow> exn + string list" where
  "symbol_column t =
     (case filter (\<lambda>(name, c). name = ''Symbol'') t of
        [] \<Rightarrow> Inl (KeyError ''Symbol'')
      | [(name, c)] \<Rightarrow> Inr (map astype_str c)
      | _ \<Rightarrow> Inl AttributeError)"

text \<open>
  The first \<open>try\<close> block. Its argument is what \<open>pd.read_html(url)\<close> does: it raises
  or returns the tables of the page. \<open>tables[0]\<close> raises \<open>IndexError\<close> on an empty
  list. Whatever is raised inside the block is replaced by the \<open>RuntimeError\<close>.
\<close>

definition fetch_tickers :: "exn + html_table list \<Rightarrow> exn + string list" where
  "fetch_tickers page =
     (case (case page of
              Inl e \<Rightarrow> Inl e
            | Inr tables \<Rightarrow> (case tables of [] \<Rightarrow> Inl IndexError | t # rest \<Rightarrow> symbol_column t))
      of Inl e \<Rightarrow> Inl (RuntimeError ''Failed to fetch S&P 500 tickers from Wikipedia.'')
       | Inr tickers \<Rightarrow> Inr tickers)"

text \<open>\<open>t.replace('.', '-')\<close>: every occurrence of the one-character pattern is replaced.\<close>

definition replace_dot :: "string \<Rightarrow> string" where
  "replace_dot t = map (\<lambda>c. if c = CHR ''.'' then CHR ''-'' else c) t"

subsection \<open>The price provider\<close>

text \<open>A pandas \<open>Series\<close> of prices: row labels and one cell per label.\<close>

record series =
  s_index :: "nat list"
  s_values :: "fval list"

datatype pdobj = Series series | DataFrame frame

text \<open>A call of \<open>yf.download\<close>: its first argument (a list of tickers or one ticker)
  and the period token.\<close>

datatype ticker_arg = Many "string list" | One string

datatype call = Download ticker_arg string

text \<open>
  The outside world. \<open>read_html\<close> is the outcome of the one page fetch.
  \<open>download_many\<close> and \<open>download_one\<close> give the outcome of
  \<open>yf.download(arg, period=period, ...)["Adj Close"]\<close> for a list and for a single
  ticker: an exception (of the download or of the column selection) or the selected
  object. Their first argument is the list of download calls made before, so the
  provider may answer the same request differently over time. For a single ticker
  the selection is taken to be a Series, as the source's comment says.
\<close>

record provider =
  read_html :: "exn + html_table list"
  download_many :: "call list \<Rightarrow> string list \<Rightarrow> string \<Rightarrow> exn + pdobj"
  download_one :: "call list \<Rightarrow> string \<Rightarrow> string \<Rightarrow> exn + series"

text \<open>\<open>d[k] = v\<close> on a Python dict: a new key goes last, an old key keeps its place.\<close>

fun dict_set :: "('k \<times> 'v) list \<Rightarrow> 'k \<Rightarrow> 'v \<Rightarrow> ('k \<times> 'v) list" where
  "dict_set [] k v = [(k, v)]"
| "dict_set ((k', v') # d) k v =
     (if k' = k then (k, v) # d else (k', v') # dict_set d k v)"

text \<open>
  The dict comprehension of the fallback,
  \<open>{t: yf.download(t, period=period, progress=False)["Adj Close"] for t in tickers}\<close>:
  one download per list element, in order; an exception ends the comprehension.
  The function returns the dict (or the exception) and the extended call log.
\<close>

fun fallback ::
  "provider \<Rightarrow> string \<Rightarrow> call list \<Rightarrow> (string \<times> series) list \<Rightarrow> string list
     \<Rightarrow> (exn + (string \<times> series) list) \<times> call list" where
  "fallback pv period calls d [] = (Inr d, calls)"
| "fallback pv period calls d (t # ts) =
     (case download_one pv calls t period of
        Inl e \<Rightarrow> (Inl e, calls @ [Download (One t) period])
      | Inr s \<Rightarrow> fallback pv period (calls @ [Download (One t) period]) (dict_set d t s) ts)"

text \<open>Reindexing a Series to new row labels: the cell of the label, \<open>NaN\<close> where the
  Series has no such label.\<close>

definition reindex :: "series \<Rightarrow> nat list \<Rightarrow> fval list" where
  "reindex s idx =
     map (\<lambda>l. case map_of (zip (s_index s) (s_values s)) l of None \<Rightarrow> NaN | Some v \<Rightarrow> v) idx"

text \<open>
  \<open>pd.DataFrame(d)\<close> for a dict of Series: one column per key, in dict order. When
  all Series carry the same row labels these are the frame's labels and the cells
  are taken as they are; otherwise the labels are the sorted union and every Series
  is reindexed, which pandas refuses for a Series with a repeated label.
\<close>

definition frame_of_dict :: "(string \<times> series) list \<Rightarrow> exn + frame" where
  "frame_of_dict d =
     (let idxs = map (\<lambda>(t, s). s_index s) d in
      case idxs of
        [] \<Rightarrow> Inr \<lparr>index = [], columns = []\<rparr>
      | i # rest \<Rightarrow>
          if list_all (\<lambda>j. j = i) rest
          then Inr \<lparr>index = i, columns = map (\<lambda>(t, s). (t, s_values s)) d\<rparr>
          else if list_all distinct idxs
          then (let u = sort (remdups (concat idxs))
                in Inr \<lparr>index = u, columns = map (\<lambda>(t, s). (t, reindex s u)) d\<rparr>)
          else Inl (ValueError ''cannot reindex on an axis with duplicate labels''))"

text \<open>\<open>if isinstance(adj, pd.Series): adj = adj.to_frame(name=tickers[0])\<close>.\<close>

definition normalize_adj :: "pdobj \<Rightarrow> string list \<Rightarrow> exn + frame" where
  "normalize_adj adj tickers =
     (case adj of
        DataFrame fr \<Rightarrow> Inr fr
      | Series s \<Rightarrow>
          (case tickers of
             [] \<Rightarrow> Inl IndexError
           | t # rest \<Rightarrow> Inr \<lparr>index = s_index s, columns = [(t, s_values s)]\<rparr>))"

text \<open>
  The whole function: the result (the frame or the exception that leaves the
  function) and the download calls it made, in order.
\<close>

definition get_snp_500_values_per_company ::
  "provider \<Rightarrow> string \<Rightarrow> (exn + frame) \<times> call list" where
  "get_snp_500_values_per_company pv period =
     (case fetch_tickers (read_html pv) of
        Inl e \<Rightarrow> (Inl e, [])
      | Inr raw \<Rightarrow>
          (let tickers = map replace_dot raw;
               bulk = [Download (Many tickers) period]
           in case download_many pv [] tickers period of
                Inr adj \<Rightarrow> (normalize_adj adj tickers, bulk)
              | Inl e \<Rightarrow>
                  (case fallback pv period bulk [] tickers of
                     (Inl e', calls) \<Rightarrow> (Inl e', calls)
                   | (Inr d, calls) \<Rightarrow> (frame_of_dict d, calls))))"

subsection \<open>The price table of the specification\<close>


text \<open>The tickers a download call names.\<close>

fun call_tickers :: "call \<Rightarrow> string list" where
  "call_tickers (Download (Many ts) p) = ts"
| "call_tickers (Download (One t) p) = [t]"

section \<open>Auxiliary notions for the statements\<close>

text \<open>The rows that \<open>dropna\<close> keeps: the positions where no column holds \<open>NaN\<close>.\<close>

definition kept_rows :: "nat \<Rightarrow> (string \<times> fval list) list \<Rightarrow> nat set" where
  "kept_rows n cols = {i. i < n \<and> (\<forall>(name, c) \<in> set cols. c ! i \<noteq> NaN)}"

text \<open>A cell that holds a price: present, finite and strictly positive.\<close>

definition is_price :: "fval \<Rightarrow> bool" where
  "is_price v = (case v of Fin p \<Rightarrow> 0 < p | _ \<Rightarrow> False)"

text \<open>The frame of given row labels and finite prices, no cell missing.\<close>

definition price_frame :: "nat list \<Rightarrow> (string \<times> real list) list \<Rightarrow> frame" where
  "price_frame idx pcols = \<lparr>index = idx, columns = map (\<lambda>(name, ps). (name, map Fin ps)) pcols\<rparr>"

text \<open>A provider whose page lists one company and whose download of a one-element
  list answers with a bare Series.\<close>

definition one_ticker_provider :: provider where
  "one_ticker_provider =
     \<lparr>read_html = Inr [[(''Security'', [CStr ''Berkshire'']), (''Symbol'', [CStr ''BRK.B''])]],
      download_many = (\<lambda>calls ts period.
         Inr (Series \<lparr>s_index = [1, 2, 3], s_values = [Fin 100, Fin 110, Fin 121]\<rparr>)),
      download_one = (\<lambda>calls t period. Inl (Raised ''unused''))\<rparr>"

text \<open>A provider whose page fetch fails, and one whose first table has no
  \<open>Symbol\<close> column.\<close>

definition unreachable_provider :: provider where
  "unreachable_provider =
     \<lparr>read_html = Inl (Raised ''connection refused''),
      download_many = (\<lambda>calls ts period. Inl (Raised ''unused'')),
      download_one = (\<lambda>calls t period. Inl (Raised ''unused''))\<rparr>"

definition no_symbol_provider :: provider where
  "no_symbol_provider =
     \<lparr>read_html = Inr [[(''Security'', [CStr ''Apple'']), (''Ticker'', [CStr ''AAPL''])]],
      download_many = (\<lambda>calls ts period. Inl (Raised ''unused'')),
      download_one = (\<lambda>calls t period. Inl (Raised ''unused''))\<rparr>"

text \<open>The column of a frame under a name, if there is one.\<close>

definition lookup_column :: "frame \<Rightarrow> string \<Rightarrow> fval list option" where
  "lookup_column fr name = map_of (columns fr) name"

text \<open>Example tables: instrument X lacks its second price; a price of zero followed by
  a positive one; two prices of zero in a row.\<close>

definition gap_frame :: frame where
  "gap_frame = \<lparr>index = [1, 2, 3, 4, 5],
     columns = [(''X'', [Fin 1, NaN, Fin 1, Fin 2, Fin 4]),
                (''Y'', [Fin 1, Fin 2, Fin 4, Fin 8, Fin 16])]\<rparr>"


definition zero_run_frame :: frame where
  "zero_run_frame = \<lparr>index = [1, 2, 3], columns = [(''A'', [Fin 0, Fin 0, Fin 5])]\<rparr>"




section \<open>Row selection and \<open>dropna\<close>\<close>

lemma select_rows_Cons:
  "select_rows (b # m) (x # xs) = (if b then x # select_rows m xs else select_rows m xs)"
  by (simp add: select_rows_def)

lemma select_rows_Nil [simp]: "select_rows m [] = []" "select_rows [] xs = []"
  by (simp_all add: select_rows_def)

lemma select_rows_nths:
  "length m = length xs \<Longrightarrow> select_rows m xs = nths xs {i. i < length m \<and> m ! i}"
proof (induction xs arbitrary: m)
  case Nil
  then show ?case by simp
next
  case (Cons x xs)
  then obtain b m' where m: "m = b # m'" by (cases m) auto
  have len: "length m' = length xs" using Cons.prems m by simp
  have s: "{j. Suc j \<in> {i. i < length (b # m') \<and> (b # m') ! i}} = {i. i < length m' \<and> m' ! i}"
    by auto
  show ?case
    unfolding m select_rows_Cons nths_Cons s using Cons.IH [OF len] by simp
qed

lemma nths_cong_on:
  "(\<And>i. i < length xs \<Longrightarrow> (i \<in> A) = (i \<in> B)) \<Longrightarrow> nths xs A = nths xs B"
proof -
  assume h: "\<And>i. i < length xs \<Longrightarrow> (i \<in> A) = (i \<in> B)"
  have "filter (\<lambda>p. snd p \<in> A) (zip xs [0..<length xs])
      = filter (\<lambda>p. snd p \<in> B) (zip xs [0..<length xs])"
  proof (rule filter_cong [OF refl])
    fix p assume "p \<in> set (zip xs [0..<length xs])"
    then have "snd p \<in> set [0..<length xs]" by (metis in_set_zipE prod.collapse)
    then show "(snd p \<in> A) = (snd p \<in> B)" using h by simp
  qed
  then show ?thesis by (simp add: nths_def)
qed

lemma nths_drop_first: "nths xs (- {0}) = tl xs"
proof (cases xs)
  case Nil
  then show ?thesis by simp
next
  case (Cons x l)
  have "{j. Suc j \<in> - {0::nat}} = UNIV" by auto
  then show ?thesis using Cons by (simp add: nths_Cons nths_all)
qed

lemma row_mask_length:
  "\<forall>(name, c) \<in> set cols. length c = n \<Longrightarrow> length (row_mask n cols) = n"
  by (induction cols) (auto simp: row_mask_def)

lemma row_mask_Cons:
  "row_mask n ((name, c) # cols) = map2 (\<and>) (map (\<lambda>v. v \<noteq> NaN) c) (row_mask n cols)"
  by (simp add: row_mask_def)

lemma row_mask_nth:
  "\<forall>(name, c) \<in> set cols. length c = n \<Longrightarrow> i < n \<Longrightarrow>
     row_mask n cols ! i = (\<forall>(name, c) \<in> set cols. c ! i \<noteq> NaN)"
proof (induction cols)
  case Nil
  then show ?case by (simp add: row_mask_def)
next
  case (Cons a cols)
  obtain name c where a: "a = (name, c)" by (cases a)
  have len: "length c = n" "length (row_mask n cols) = n"
    using Cons.prems(1) a row_mask_length [of cols n] by auto
  have ih: "row_mask n cols ! i = (\<forall>(name, c) \<in> set cols. c ! i \<noteq> NaN)"
    using Cons by simp
  show ?case unfolding a row_mask_Cons using len ih Cons.prems(2) by simp
qed

lemma dropna_nths:
  assumes wf: "\<forall>(name, c) \<in> set cols. length c = length idx"
  shows "dropna \<lparr>index = idx, columns = cols\<rparr>
     = \<lparr>index = nths idx (kept_rows (length idx) cols),
        columns = map (\<lambda>(name, c). (name, nths c (kept_rows (length idx) cols))) cols\<rparr>"
proof -
  let ?m = "row_mask (length idx) cols"
  have len: "length ?m = length idx" using wf by (rule row_mask_length)
  have S: "{i. i < length ?m \<and> ?m ! i} = kept_rows (length idx) cols"
    using row_mask_nth [OF wf] len by (auto simp: kept_rows_def)
  have i: "select_rows ?m idx = nths idx (kept_rows (length idx) cols)"
    using select_rows_nths [of ?m idx] len S by simp
  have c: "select_rows ?m c = nths c (kept_rows (length idx) cols)"
    if "(name, c) \<in> set cols" for name c
  proof -
    have "length ?m = length c" using wf that len by auto
    then show ?thesis using select_rows_nths [of ?m c] S by simp
  qed
  have "map (\<lambda>(name, c). (name, select_rows ?m c)) cols
      = map (\<lambda>(name, c). (name, nths c (kept_rows (length idx) cols))) cols"
    by (rule map_cong [OF refl]) (use c in auto)
  then show ?thesis using i by (simp add: dropna_def Let_def)
qed

lemma shift1_nth:
  "i < length c \<Longrightarrow> shift1 c ! i = (if i = 0 then NaN else c ! (i - 1))"
  by (cases i) (auto simp: shift1_def)

lemma ratio_col_length [simp]: "length (ratio_col c) = length c"
  by (simp add: ratio_col_def shift1_def)

lemma ratio_col_nth:
  "i < length c \<Longrightarrow> ratio_col c ! i = (if i = 0 then NaN else fdiv (c ! i) (c ! (i - 1)))"
proof -
  assume i: "i < length c"
  have "fdiv a NaN = NaN" for a by (cases a) auto
  then show ?thesis using i by (simp add: ratio_col_def shift1_nth shift1_def)
qed

lemma pct_col_length [simp]: "length (pct_col c) = length c"
  by (simp add: pct_col_def)

lemma log_col_length [simp]: "length (log_col c) = length c"
  by (simp add: log_col_def)

lemma pct_col_nth:
  "i < length c \<Longrightarrow>
     pct_col c ! i = (if i = 0 then NaN else fsub (fdiv (c ! i) (c ! (i - 1))) (Fin 1))"
  by (simp add: pct_col_def ratio_col_nth)

lemma log_col_nth:
  "i < length c \<Longrightarrow> log_col c ! i = (if i = 0 then NaN else flog (fdiv (c ! i) (c ! (i - 1))))"
  by (simp add: log_col_def ratio_col_nth)

lemma dropna_rows:
  assumes wf: "\<forall>(name, c) \<in> set cols. length c = length idx"
    and S: "\<And>i. i < length idx \<Longrightarrow> (i \<in> S) = (\<forall>(name, c) \<in> set cols. c ! i \<noteq> NaN)"
  shows "dropna \<lparr>index = idx, columns = cols\<rparr>
     = \<lparr>index = nths idx S, columns = map (\<lambda>(name, c). (name, nths c S)) cols\<rparr>"
proof -
  let ?K = "kept_rows (length idx) cols"
  have eq: "nths xs ?K = nths xs S" if "length xs = length idx" for xs :: "'a list"
    by (rule nths_cong_on) (use that S in \<open>auto simp: kept_rows_def\<close>)
  have "map (\<lambda>(name, c). (name, nths c ?K)) cols = map (\<lambda>(name, c). (name, nths c S)) cols"
    by (rule map_cong [OF refl]) (use wf eq in auto)
  then show ?thesis using dropna_nths [OF wf] eq [of idx] by simp
qed

lemma map_columns_simps [simp]:
  "index (map_columns f fr) = index fr"
  "columns (map_columns f fr) = map (\<lambda>(name, c). (name, f c)) (columns fr)"
  by (simp_all add: map_columns_def)

lemma frame_eq_iff: "(fr :: frame) = \<lparr>index = index fr, columns = columns fr\<rparr>"
  by simp

lemma ffill_from_id: "NaN \<notin> set c \<Longrightarrow> ffill_from prev c = c"
  by (induction c arbitrary: prev) auto

lemma ffill_from_length [simp]: "length (ffill_from prev c) = length c"
  by (induction c arbitrary: prev) auto

lemma ffill_length [simp]: "length (ffill c) = length c"
  by (simp add: ffill_def)

lemma ffill_id: "NaN \<notin> set c \<Longrightarrow> ffill c = c"
  by (simp add: ffill_def ffill_from_id)

text \<open>Without missing prices the fill method of pct_change makes no difference.\<close>

lemma pct_change_no_nan:
  assumes "\<forall>(name, c) \<in> set (columns fr). NaN \<notin> set c"
  shows "pct_change fm fr = map_columns pct_col fr"
proof (cases fm)
  case NoFill
  then show ?thesis by (simp add: pct_change_def)
next
  case Pad
  have "map (\<lambda>(name, c). (name, ffill c)) (columns fr) = map (\<lambda>(name, c). (name, c)) (columns fr)"
    by (rule map_cong [OF refl]) (use assms ffill_id in auto)
  then have "map_columns ffill fr = fr" by (simp add: map_columns_def)
  then show ?thesis using Pad by (simp add: pct_change_def)
qed

text \<open>Returns of columns whose only undefined return is the first one.\<close>

lemma dropna_first_row:
  assumes ne: "cols \<noteq> []"
    and wf: "\<forall>(name, c) \<in> set cols. length c = length idx"
    and nan: "\<forall>(name, c) \<in> set cols. \<forall>i < length idx. (c ! i = NaN) = (i = 0)"
  shows "dropna \<lparr>index = idx, columns = cols\<rparr>
     = \<lparr>index = tl idx, columns = map (\<lambda>(name, c). (name, tl c)) cols\<rparr>"
proof -
  obtain a where a: "a \<in> set cols" using ne by (cases cols) auto
  have S: "(i \<in> - {0}) = (\<forall>(name, c) \<in> set cols. c ! i \<noteq> NaN)" if "i < length idx" for i
    using nan that a by fastforce
  show ?thesis using dropna_rows [OF wf S] by (simp add: nths_drop_first)
qed












section \<open>Compounding an empty return table\<close>

text \<open>
  Claim C10. For a return table with zero rows, whatever its instruments,
  \<open>compound_simple_returns_over_period\<close> gives 0 for every instrument (the empty
  product is 1, minus 1) and \<open>compound_continuous_returns_over_period\<close> gives 0 (the
  empty sum); both return a value, neither fails.
\<close>

theorem empty_returns_compound_to_zero:
  "compound_simple_returns_over_period \<lparr>index = [], columns = map (\<lambda>name. (name, [])) names\<rparr>
     = map (\<lambda>name. (name, Fin 0)) names
   \<and> compound_continuous_returns_over_period \<lparr>index = [], columns = map (\<lambda>name. (name, [])) names\<rparr>
     = map (\<lambda>name. (name, Fin 0)) names"
  by (simp add: compound_simple_returns_over_period_def
      compound_continuous_returns_over_period_def prod_col_def sum_col_def comp_def)

theorem empty_returns_compound_to_zero_witness:
  "compound_simple_returns_over_period \<lparr>index = [], columns = [(''AAPL'', [])]\<rparr>
     = [(''AAPL'', Fin 0)]
   \<and> compound_continuous_returns_over_period \<lparr>index = [], columns = [(''AAPL'', [])]\<rparr>
     = [(''AAPL'', Fin 0)]"
  using empty_returns_compound_to_zero [of "[''AAPL'']"] by simp

section \<open>Returns of complete, positive price tables\<close>






section \<open>Ticker normalisation and the download calls\<close>

lemma replace_dot_no_dot: "CHR ''.'' \<notin> set (replace_dot t)"
  by (auto simp: replace_dot_def)

lemma replace_dot_id: "CHR ''.'' \<notin> set t \<Longrightarrow> replace_dot t = t"
  by (induction t) (auto simp: replace_dot_def)

lemma fallback_calls:
  "\<exists>k \<le> length ts. snd (fallback pv period calls d ts)
     = calls @ map (\<lambda>t. Download (One t) period) (take k ts)"
proof (induction ts arbitrary: calls d)
  case Nil
  then show ?case by simp
next
  case (Cons t ts)
  show ?case
  proof (cases "download_one pv calls t period")
    case (Inl e)
    then have "snd (fallback pv period calls d (t # ts))
       = calls @ map (\<lambda>t. Download (One t) period) (take 1 (t # ts))" by simp
    then show ?thesis by (metis One_nat_def Suc_leI length_Cons zero_less_Suc)
  next
    case (Inr s)
    from Cons.IH [of "calls @ [Download (One t) period]" "dict_set d t s"]
    obtain k where k: "k \<le> length ts"
      "snd (fallback pv period (calls @ [Download (One t) period]) (dict_set d t s) ts)
        = (calls @ [Download (One t) period]) @ map (\<lambda>t. Download (One t) period) (take k ts)"
      by blast
    have "snd (fallback pv period calls d (t # ts))
       = calls @ map (\<lambda>t. Download (One t) period) (take (Suc k) (t # ts))"
      using Inr k(2) by simp
    moreover have "Suc k \<le> length (t # ts)" using k(1) by simp
    ultimately show ?thesis by blast
  qed
qed

lemma get_calls:
  assumes "fetch_tickers (read_html pv) = Inr raw"
  shows "\<exists>k \<le> length raw. snd (get_snp_500_values_per_company pv period)
     = Download (Many (map replace_dot raw)) period
       # map (\<lambda>t. Download (One t) period) (take k (map replace_dot raw))"
proof (cases "download_many pv [] (map replace_dot raw) period")
  case (Inr adj)
  then have "snd (get_snp_500_values_per_company pv period)
     = Download (Many (map replace_dot raw)) period
       # map (\<lambda>t. Download (One t) period) (take 0 (map replace_dot raw))"
    using assms by (simp add: get_snp_500_values_per_company_def Let_def)
  then show ?thesis by blast
next
  case (Inl e)
  obtain k where k: "k \<le> length (map replace_dot raw)"
    "snd (fallback pv period [Download (Many (map replace_dot raw)) period] [] (map replace_dot raw))
      = [Download (Many (map replace_dot raw)) period]
        @ map (\<lambda>t. Download (One t) period) (take k (map replace_dot raw))"
    using fallback_calls by blast
  have "snd (get_snp_500_values_per_company pv period)
     = snd (fallback pv period [Download (Many (map replace_dot raw)) period] [] (map replace_dot raw))"
    using assms Inl
    by (simp add: get_snp_500_values_per_company_def Let_def split: prod.splits sum.splits)
  then show ?thesis using k by auto
qed

text \<open>
  Claim C8. Normalising a ticker replaces every period by a hyphen and changes nothing
  else: the result has no period, a ticker without a period is unchanged,
  \<open>BRK.B\<close> becomes \<open>BRK-B\<close> and \<open>AAPL\<close> stays. Once the universe is resolved, the
  first download call names exactly the normalised tickers, and every download call
  the function makes names normalised tickers only.
\<close>

theorem tickers_normalized_before_download:
  "replace_dot ''BRK.B'' = ''BRK-B'' \<and> replace_dot ''AAPL'' = ''AAPL''
   \<and> CHR ''.'' \<notin> set (replace_dot t)
   \<and> (CHR ''.'' \<notin> set t \<longrightarrow> replace_dot t = t)
   \<and> length (replace_dot t) = length t
   \<and> (\<forall>i < length t. replace_dot t ! i = (if t ! i = CHR ''.'' then CHR ''-'' else t ! i))
   \<and> (fetch_tickers (read_html pv) = Inr raw \<longrightarrow>
        hd (snd (get_snp_500_values_per_company pv period))
          = Download (Many (map replace_dot raw)) period
        \<and> (\<forall>c \<in> set (snd (get_snp_500_values_per_company pv period)).
             set (call_tickers c) \<subseteq> replace_dot ` set raw))"
proof -
  have a: "replace_dot ''BRK.B'' = ''BRK-B'' \<and> replace_dot ''AAPL'' = ''AAPL''"
    by (simp add: replace_dot_def)
  have b: "length (replace_dot t) = length t
     \<and> (\<forall>i < length t. replace_dot t ! i = (if t ! i = CHR ''.'' then CHR ''-'' else t ! i))"
    by (simp add: replace_dot_def)
  have c: "hd (snd (get_snp_500_values_per_company pv period))
          = Download (Many (map replace_dot raw)) period
        \<and> (\<forall>c \<in> set (snd (get_snp_500_values_per_company pv period)).
             set (call_tickers c) \<subseteq> replace_dot ` set raw)"
    if r: "fetch_tickers (read_html pv) = Inr raw"
  proof -
    obtain k where k: "snd (get_snp_500_values_per_company pv period)
     = Download (Many (map replace_dot raw)) period
       # map (\<lambda>t. Download (One t) period) (take k (map replace_dot raw))"
      using get_calls [OF r] by blast
    have "set (take k (map replace_dot raw)) \<subseteq> replace_dot ` set raw"
      using set_take_subset [of k "map replace_dot raw"] by simp
    then show ?thesis unfolding k by auto
  qed
  show ?thesis using a b c replace_dot_no_dot replace_dot_id by blast
qed

theorem tickers_normalized_before_download_witness:
  "replace_dot ''BRK.B'' = ''BRK-B'' \<and> replace_dot ''AAPL'' = ''AAPL''
   \<and> CHR ''.'' \<notin> set (replace_dot ''BRK.B'')
   \<and> fetch_tickers (read_html one_ticker_provider) = Inr [''BRK.B'']
   \<and> hd (snd (get_snp_500_values_per_company one_ticker_provider ''1mo''))
       = Download (Many [''BRK-B'']) ''1mo''"
proof -
  have a: "fetch_tickers (read_html one_ticker_provider) = Inr [''BRK.B'']"
    by (simp add: one_ticker_provider_def fetch_tickers_def symbol_column_def)
  show ?thesis
    using tickers_normalized_before_download
      [of "''BRK.B''" one_ticker_provider "[''BRK.B'']" "''1mo''"] a
    by simp
qed

section \<open>Resolving the universe; a single ticker\<close>

text \<open>
  Claim C9. When the resolved universe is one ticker and the provider answers the
  download with a bare Series, the function returns a frame whose single column is
  keyed by that (normalised) ticker and holds the Series' labels and prices.
\<close>

theorem single_ticker_result_is_frame:
  assumes "fetch_tickers (read_html pv) = Inr [raw]"
    and "download_many pv [] [replace_dot raw] period = Inr (Series s)"
  shows "fst (get_snp_500_values_per_company pv period)
     = Inr \<lparr>index = s_index s, columns = [(replace_dot raw, s_values s)]\<rparr>"
  using assms by (simp add: get_snp_500_values_per_company_def Let_def normalize_adj_def)

theorem single_ticker_result_is_frame_witness:
  "fst (get_snp_500_values_per_company one_ticker_provider ''1mo'')
     = Inr \<lparr>index = [1, 2, 3], columns = [(''BRK-B'', [Fin 100, Fin 110, Fin 121])]\<rparr>"
proof -
  have a: "fetch_tickers (read_html one_ticker_provider) = Inr [''BRK.B'']"
    by (simp add: one_ticker_provider_def fetch_tickers_def symbol_column_def)
  have b: "download_many one_ticker_provider [] [replace_dot ''BRK.B''] ''1mo''
     = Inr (Series \<lparr>s_index = [1, 2, 3], s_values = [Fin 100, Fin 110, Fin 121]\<rparr>)"
    by (simp add: one_ticker_provider_def)
  show ?thesis
    using single_ticker_result_is_frame [OF a b] by (simp add: replace_dot_def)
qed

lemma fetch_tickers_cases:
  "fetch_tickers page = Inl (RuntimeError ''Failed to fetch S&P 500 tickers from Wikipedia.'')
   \<or> (\<exists>t rest name c. page = Inr (t # rest)
        \<and> filter (\<lambda>(name, c). name = ''Symbol'') t = [(name, c)]
        \<and> fetch_tickers page = Inr (map astype_str c))"
  by (auto simp: fetch_tickers_def symbol_column_def split: sum.splits list.splits)

lemma symbol_column_absent:
  "''Symbol'' \<notin> fst ` set t \<Longrightarrow> symbol_column t = Inl (KeyError ''Symbol'')"
proof -
  assume a: "''Symbol'' \<notin> fst ` set t"
  have "filter (\<lambda>(name, c). name = ''Symbol'') t = []"
    using a by (auto simp: filter_empty_conv image_iff)
  then show ?thesis by (simp add: symbol_column_def)
qed

text \<open>
  Claim C7. When the page fetch raises, or the first table of the page has no column
  named \<open>Symbol\<close>, the function raises the \<open>RuntimeError\<close> of the first \<open>try\<close>
  block and makes no download call. In every case the function either raises that
  error or the resolved tickers are the whole \<open>Symbol\<close> column of the first table,
  cell by cell: never a part of it.
\<close>

theorem universe_all_or_nothing:
  "((read_html pv = Inl e
      \<or> (read_html pv = Inr (t # rest) \<and> ''Symbol'' \<notin> fst ` set t))
     \<longrightarrow> get_snp_500_values_per_company pv period
           = (Inl (RuntimeError ''Failed to fetch S&P 500 tickers from Wikipedia.''), []))
   \<and> (get_snp_500_values_per_company pv period
         = (Inl (RuntimeError ''Failed to fetch S&P 500 tickers from Wikipedia.''), [])
      \<or> (\<exists>t' rest' c. read_html pv = Inr (t' # rest')
            \<and> filter (\<lambda>(name, c). name = ''Symbol'') t' = [(''Symbol'', c)]
            \<and> fetch_tickers (read_html pv) = Inr (map astype_str c)))"
proof -
  let ?err = "Inl (RuntimeError ''Failed to fetch S&P 500 tickers from Wikipedia.'')"
  have f: "get_snp_500_values_per_company pv period = (?err, [])"
    if "fetch_tickers (read_html pv) = ?err"
    using that by (simp add: get_snp_500_values_per_company_def)
  have a: "get_snp_500_values_per_company pv period = (?err, [])"
    if "read_html pv = Inl e"
    using that by (intro f) (simp add: fetch_tickers_def)
  have b: "get_snp_500_values_per_company pv period = (?err, [])"
    if "read_html pv = Inr (t # rest)" "''Symbol'' \<notin> fst ` set t"
    using that symbol_column_absent [of t] by (intro f) (simp add: fetch_tickers_def)
  have c: "get_snp_500_values_per_company pv period = (?err, [])
      \<or> (\<exists>t' rest' c. read_html pv = Inr (t' # rest')
            \<and> filter (\<lambda>(name, c). name = ''Symbol'') t' = [(''Symbol'', c)]
            \<and> fetch_tickers (read_html pv) = Inr (map astype_str c))"
  proof -
    from fetch_tickers_cases [of "read_html pv"] show ?thesis
    proof
      assume "fetch_tickers (read_html pv) = ?err"
      then show ?thesis using f by blast
    next
      assume "\<exists>t rest name c. read_html pv = Inr (t # rest)
        \<and> filter (\<lambda>(name, c). name = ''Symbol'') t = [(name, c)]
        \<and> fetch_tickers (read_html pv) = Inr (map astype_str c)"
      then obtain t' rest' name c where h: "read_html pv = Inr (t' # rest')"
        "filter (\<lambda>(name, c). name = ''Symbol'') t' = [(name, c)]"
        "fetch_tickers (read_html pv) = Inr (map astype_str c)" by blast
      have "(name, c) \<in> set (filter (\<lambda>(name, c). name = ''Symbol'') t')" using h(2) by simp
      then have "name = ''Symbol''" by auto
      then show ?thesis using h by blast
    qed
  qed
  show ?thesis using a b c by blast
qed

theorem universe_all_or_nothing_witness:
  "get_snp_500_values_per_company unreachable_provider ''1mo''
     = (Inl (RuntimeError ''Failed to fetch S&P 500 tickers from Wikipedia.''), [])
   \<and> get_snp_500_values_per_company no_symbol_provider ''1mo''
     = (Inl (RuntimeError ''Failed to fetch S&P 500 tickers from Wikipedia.''), [])"
proof -
  have a: "read_html unreachable_provider = Inl (Raised ''connection refused'')"
    by (simp add: unreachable_provider_def)
  have b: "read_html no_symbol_provider
     = Inr ([(''Security'', [CStr ''Apple'']), (''Ticker'', [CStr ''AAPL''])] # [])
     \<and> ''Symbol'' \<notin> fst ` set [(''Security'', [CStr ''Apple'']), (''Ticker'', [CStr ''AAPL''])]"
    by (simp add: no_symbol_provider_def)
  show ?thesis
    using universe_all_or_nothing [where pv = unreachable_provider
        and e = "Raised ''connection refused''" and period = "''1mo''"] a
      universe_all_or_nothing [where pv = no_symbol_provider
        and t = "[(''Security'', [CStr ''Apple'']), (''Ticker'', [CStr ''AAPL''])]"
        and rest = "[]" and period = "''1mo''"] b
    by blast
qed

section \<open>Missing values, zero prices and the rows that are dropped\<close>

lemma is_price_iff: "is_price v = (\<exists>p. v = Fin p \<and> 0 < p)"
  by (cases v) (auto simp: is_price_def)

lemma step_not_nan:
  "is_price a \<Longrightarrow> is_price b \<Longrightarrow>
     fsub (fdiv a b) (Fin 1) \<noteq> NaN \<and> flog (fdiv a b) \<noteq> NaN"
  by (auto simp: is_price_iff)

lemma step_nan:
  "a = NaN \<or> b = NaN \<Longrightarrow> fsub (fdiv a b) (Fin 1) = NaN \<and> flog (fdiv a b) = NaN"
  by (cases a; cases b) auto

lemma return_nan_iff:
  assumes i: "i < length c"
    and ok: "\<forall>j < length c. c ! j = NaN \<or> is_price (c ! j)"
  shows "(pct_col c ! i = NaN) = (i = 0 \<or> c ! i = NaN \<or> c ! (i - 1) = NaN)"
    and "(log_col c ! i = NaN) = (i = 0 \<or> c ! i = NaN \<or> c ! (i - 1) = NaN)"
proof -
  have j: "i - 1 < length c" using i by simp
  have a: "c ! i = NaN \<or> is_price (c ! i)" using ok i by blast
  have b: "c ! (i - 1) = NaN \<or> is_price (c ! (i - 1))" using ok j by blast
  show "(pct_col c ! i = NaN) = (i = 0 \<or> c ! i = NaN \<or> c ! (i - 1) = NaN)"
    using a b step_not_nan [of "c ! i" "c ! (i - 1)"] step_nan [of "c ! i" "c ! (i - 1)"] i
    by (auto simp: pct_col_nth)
  show "(log_col c ! i = NaN) = (i = 0 \<or> c ! i = NaN \<or> c ! (i - 1) = NaN)"
    using a b step_not_nan [of "c ! i" "c ! (i - 1)"] step_nan [of "c ! i" "c ! (i - 1)"] i
    by (auto simp: log_col_nth)
qed

lemma ffill_from_prices:
  assumes "\<forall>v \<in> set c. v = NaN \<or> is_price v" "is_price prev"
  shows "\<forall>v \<in> set (ffill_from prev c). is_price v"
  using assms by (induction c arbitrary: prev) auto

lemma ffill_prices:
  assumes "\<forall>v \<in> set c. v = NaN \<or> is_price v" "c \<noteq> []" "is_price (hd c)"
  shows "\<forall>v \<in> set (ffill c). is_price v"
proof -
  obtain a r where c: "c = a # r" using assms(2) by (cases c) auto
  have a: "is_price a" "a \<noteq> NaN" using assms(3) c by (auto simp: is_price_def)
  have "\<forall>v \<in> set (ffill_from a r). is_price v"
    using ffill_from_prices [of r a] assms(1) a c by simp
  then show ?thesis using a c by (simp add: ffill_def)
qed


lemma pct_change_columns:
  "columns (pct_change fm fr)
     = map (\<lambda>(name, c). (name, pct_col (case fm of Pad \<Rightarrow> ffill c | NoFill \<Rightarrow> c))) (columns fr)"
  "index (pct_change fm fr) = index fr"
  by (cases fm; simp add: pct_change_def comp_def case_prod_unfold)+

lemma pct_change_frame:
  "pct_change fm \<lparr>index = idx, columns = cols\<rparr>
     = \<lparr>index = idx,
        columns = map (\<lambda>(name, c). (name, pct_col (case fm of Pad \<Rightarrow> ffill c | NoFill \<Rightarrow> c))) cols\<rparr>"
  using pct_change_columns [of fm "\<lparr>index = idx, columns = cols\<rparr>"]
  by (cases "pct_change fm \<lparr>index = idx, columns = cols\<rparr>") simp

lemma log_frame:
  "map_columns log_col \<lparr>index = idx, columns = cols\<rparr>
     = \<lparr>index = idx, columns = map (\<lambda>(name, c). (name, log_col c)) cols\<rparr>"
  by (simp add: map_columns_def)


lemmas eval_defs = simple_returns_def continuously_compound_returns_def pct_change_def
  map_columns_def pct_col_def log_col_def ratio_col_def shift1_def dropna_def row_mask_def
  select_rows_def ffill_def price_frame_def



text \<open>
  Counterexample to claim C5 as stated: the prices 0, 0, 5 of one instrument, none
  missing. \<open>0 / 0\<close> is \<open>NaN\<close>, so the second row is dropped with the first and one
  row is left where the claim promises two.
\<close>

theorem zero_run_counterexample:
  "simple_returns NoFill zero_run_frame = \<lparr>index = [3], columns = [(''A'', [PInf])]\<rparr>
   \<and> simple_returns Pad zero_run_frame = \<lparr>index = [3], columns = [(''A'', [PInf])]\<rparr>
   \<and> length (index zero_run_frame) - 1 = 2"
  by (simp add: zero_run_frame_def eval_defs)

lemma finite_step_nan:
  "fsub (fdiv (Fin a) (Fin b)) (Fin 1) = NaN \<longleftrightarrow> a = 0 \<and> b = 0"
  by auto

text \<open>
  Claim C5, as amended. For a non-empty price table with \<open>n\<close> rows in which every price
  is present and finite and no instrument has a price of zero directly followed by
  another price of zero, the output of \<open>simple_returns\<close> has the same instruments and
  exactly \<open>n - 1\<close> rows, for the row labels and for every instrument.
\<close>

theorem simple_returns_row_count:
  assumes ne: "cols \<noteq> []"
    and ok: "\<forall>(name, c) \<in> set cols. length c = length idx
        \<and> (\<forall>v \<in> set c. \<exists>p. v = Fin p)
        \<and> (\<forall>i. Suc i < length c \<longrightarrow> \<not> (c ! i = Fin 0 \<and> c ! Suc i = Fin 0))"
  shows "length (index (simple_returns fm \<lparr>index = idx, columns = cols\<rparr>)) = length idx - 1
     \<and> map fst (columns (simple_returns fm \<lparr>index = idx, columns = cols\<rparr>)) = map fst cols
     \<and> (\<forall>(name, r) \<in> set (columns (simple_returns fm \<lparr>index = idx, columns = cols\<rparr>)).
           length r = length idx - 1)"
proof -
  let ?fr = "\<lparr>index = idx, columns = cols\<rparr>"
  let ?raw = "map (\<lambda>(name, c). (name, pct_col c)) cols"
  have nonan: "\<forall>(name, c) \<in> set (columns ?fr). NaN \<notin> set c"
    using ok by fastforce
  have pc: "pct_change fm ?fr = \<lparr>index = idx, columns = ?raw\<rparr>"
    unfolding pct_change_no_nan [OF nonan] by (simp add: map_columns_def)
  have wf: "\<forall>(name, c) \<in> set ?raw. length c = length idx" using ok by auto
  have nan: "(pct_col c ! i = NaN) = (i = 0)"
    if c: "(name, c) \<in> set cols" and i: "i < length idx" for name c i
  proof (cases i)
    case 0
    then show ?thesis using c i ok by (auto simp: pct_col_nth)
  next
    case (Suc j)
    have len: "length c = length idx" using ok c by auto
    have fin: "\<forall>v \<in> set c. \<exists>p. v = Fin p" using ok c by auto
    have run: "\<forall>i. Suc i < length c \<longrightarrow> \<not> (c ! i = Fin 0 \<and> c ! Suc i = Fin 0)"
      using ok c by auto
    have "c ! j \<in> set c" "c ! Suc j \<in> set c" using len i Suc by auto
    then obtain a b where ab: "c ! Suc j = Fin a" "c ! j = Fin b" using fin by blast
    have "\<not> (c ! j = Fin 0 \<and> c ! Suc j = Fin 0)" using run len i Suc by simp
    then have "\<not> (a = 0 \<and> b = 0)" using ab by auto
    then show ?thesis using Suc len i ab finite_step_nan [of a b] by (simp add: pct_col_nth)
  qed
  have nan': "\<forall>(name, c) \<in> set ?raw. \<forall>i < length idx. (c ! i = NaN) = (i = 0)"
    using nan by auto
  have sr: "simple_returns fm ?fr
     = \<lparr>index = tl idx, columns = map (\<lambda>(name, c). (name, tl (pct_col c))) cols\<rparr>"
    unfolding simple_returns_def pc using ne dropna_first_row [OF _ wf nan']
    by (simp add: comp_def case_prod_unfold)
  show ?thesis unfolding sr using ok by (auto simp: comp_def case_prod_unfold)
qed

theorem simple_returns_row_count_witness:
  "length (index (simple_returns Pad \<lparr>index = [1, 2, 3], columns = [(''A'', [Fin 0, Fin 5, Fin 0])]\<rparr>)) = 2
   \<and> map fst (columns (simple_returns Pad \<lparr>index = [1, 2, 3], columns = [(''A'', [Fin 0, Fin 5, Fin 0])]\<rparr>)) = [''A'']
   \<and> length (snd (hd (columns (simple_returns Pad
         \<lparr>index = [1, 2, 3], columns = [(''A'', [Fin 0, Fin 5, Fin 0])]\<rparr>)))) = 2"
proof -
  let ?cols = "[(''A'', [Fin 0, Fin 5, Fin 0])]"
  have ne: "?cols \<noteq> []" by simp
  have "\<not> (([Fin 0, Fin 5, Fin 0] :: fval list) ! i = Fin 0 \<and> [Fin 0, Fin 5, Fin 0] ! Suc i = Fin 0)"
    if "Suc i < 3" for i
    using that by (cases i) (auto simp: nth_Cons')
  then have ok: "\<forall>(name, c) \<in> set ?cols. length c = length [1, 2, 3 :: nat]
        \<and> (\<forall>v \<in> set c. \<exists>p. v = Fin p)
        \<and> (\<forall>i. Suc i < length c \<longrightarrow> \<not> (c ! i = Fin 0 \<and> c ! Suc i = Fin 0))"
    by simp
  have e: "columns (simple_returns Pad \<lparr>index = [1, 2, 3], columns = ?cols\<rparr>)
     = [(''A'', [PInf, Fin (- 1)])]"
    by (simp add: eval_defs)
  show ?thesis
    using simple_returns_row_count [OF ne ok, of Pad] unfolding e by simp
qed

lemma only_gap_rows:
  assumes wf: "\<forall>(name, c) \<in> set cols. length c = length idx"
    and cells: "\<forall>(name, c) \<in> set cols. \<forall>i < length idx. c ! i = NaN \<or> is_price (c ! i)"
    and only: "\<forall>(name, c) \<in> set cols. \<forall>i < length idx. c ! i = NaN \<longrightarrow> name = x \<and> i = k"
    and X: "(x, xs) \<in> set cols" "k < length idx" "xs ! k = NaN"
    and i: "i < length idx"
  shows "(i \<in> - {0, k, Suc k})
       = (\<forall>(name, c) \<in> set (map (\<lambda>(name, c). (name, pct_col c)) cols). c ! i \<noteq> NaN)"
    and "(i \<in> - {0, k, Suc k})
       = (\<forall>(name, c) \<in> set (map (\<lambda>(name, c). (name, log_col c)) cols). c ! i \<noteq> NaN)"
proof -
  have col: "(pct_col c ! i = NaN) = (i = 0 \<or> c ! i = NaN \<or> c ! (i - 1) = NaN)"
       "(log_col c ! i = NaN) = (i = 0 \<or> c ! i = NaN \<or> c ! (i - 1) = NaN)"
    if c: "(name, c) \<in> set cols" for name c
  proof -
    have len: "length c = length idx" using wf c by auto
    have ok: "\<forall>j < length c. c ! j = NaN \<or> is_price (c ! j)" using cells c len by auto
    show "(pct_col c ! i = NaN) = (i = 0 \<or> c ! i = NaN \<or> c ! (i - 1) = NaN)"
      "(log_col c ! i = NaN) = (i = 0 \<or> c ! i = NaN \<or> c ! (i - 1) = NaN)"
      using return_nan_iff [OF _ ok, of i] i len by auto
  qed
  have where_nan: "c ! j = NaN \<Longrightarrow> j = k" if "(name, c) \<in> set cols" "j < length idx" for name c j
    using only that by auto
  have good: "i = 0 \<or> c ! i = NaN \<or> c ! (i - 1) = NaN \<Longrightarrow> i \<in> {0, k, Suc k}"
    if c: "(name, c) \<in> set cols" for name c
  proof -
    assume "i = 0 \<or> c ! i = NaN \<or> c ! (i - 1) = NaN"
    then consider "i = 0" | "c ! i = NaN" | "i \<noteq> 0" "c ! (i - 1) = NaN" by blast
    then show ?thesis
    proof cases
      case 1
      then show ?thesis by simp
    next
      case 2
      then show ?thesis using where_nan [OF c i] by simp
    next
      case 3
      have "i - 1 < length idx" using i by simp
      then have "i - 1 = k" using where_nan [OF c] 3(2) by blast
      then show ?thesis using 3(1) by auto
    qed
  qed
  have bad: "i = 0 \<or> xs ! i = NaN \<or> xs ! (i - 1) = NaN" if "i \<in> {0, k, Suc k}"
    using that X(3) by auto
  show "(i \<in> - {0, k, Suc k})
       = (\<forall>(name, c) \<in> set (map (\<lambda>(name, c). (name, pct_col c)) cols). c ! i \<noteq> NaN)"
  proof
    assume "i \<in> - {0, k, Suc k}"
    then show "\<forall>(name, c) \<in> set (map (\<lambda>(name, c). (name, pct_col c)) cols). c ! i \<noteq> NaN"
      using col(1) good by fastforce
  next
    assume a: "\<forall>(name, c) \<in> set (map (\<lambda>(name, c). (name, pct_col c)) cols). c ! i \<noteq> NaN"
    have "(x, pct_col xs) \<in> set (map (\<lambda>(name, c). (name, pct_col c)) cols)"
      using X(1) by force
    then have "pct_col xs ! i \<noteq> NaN" using a by blast
    then show "i \<in> - {0, k, Suc k}" using col(1) [OF X(1)] bad by blast
  qed
  show "(i \<in> - {0, k, Suc k})
       = (\<forall>(name, c) \<in> set (map (\<lambda>(name, c). (name, log_col c)) cols). c ! i \<noteq> NaN)"
  proof
    assume "i \<in> - {0, k, Suc k}"
    then show "\<forall>(name, c) \<in> set (map (\<lambda>(name, c). (name, log_col c)) cols). c ! i \<noteq> NaN"
      using col(2) good by fastforce
  next
    assume a: "\<forall>(name, c) \<in> set (map (\<lambda>(name, c). (name, log_col c)) cols). c ! i \<noteq> NaN"
    have "(x, log_col xs) \<in> set (map (\<lambda>(name, c). (name, log_col c)) cols)"
      using X(1) by force
    then have "log_col xs ! i \<noteq> NaN" using a by blast
    then show "i \<in> - {0, k, Suc k}" using col(2) [OF X(1)] bad by blast
  qed
qed

lemma padded_columns:
  assumes wf: "\<forall>(name, c) \<in> set cols. length c = length idx"
    and cells: "\<forall>(name, c) \<in> set cols. \<forall>i < length idx. c ! i = NaN \<or> is_price (c ! i)"
    and only: "\<forall>(name, c) \<in> set cols. \<forall>i < length idx. c ! i = NaN \<longrightarrow> name = x \<and> i = k"
    and k: "0 < k" "k < length idx"
    and c: "(name, c) \<in> set cols"
  shows "\<forall>v \<in> set (ffill c). is_price v" and "name \<noteq> x \<Longrightarrow> ffill c = c"
proof -
  have len: "length c = length idx" using wf c by auto
  have ne: "c \<noteq> []" using len k by auto
  have cc: "\<forall>i < length idx. c ! i = NaN \<or> is_price (c ! i)" using cells c by auto
  have oc: "\<forall>i < length idx. c ! i = NaN \<longrightarrow> name = x \<and> i = k" using only c by auto
  have all: "\<forall>v \<in> set c. v = NaN \<or> is_price v"
    using cc len by (auto simp: in_set_conv_nth)
  have z: "0 < length idx" using k by (cases idx) auto
  have "c ! 0 \<noteq> NaN" using oc [rule_format, OF z] k by auto
  moreover have "c ! 0 = NaN \<or> is_price (c ! 0)" using cc [rule_format, OF z] .
  ultimately have "is_price (hd c)" using ne by (simp add: hd_conv_nth)
  then show "\<forall>v \<in> set (ffill c). is_price v" using ffill_prices [OF all ne] by simp
  show "ffill c = c" if "name \<noteq> x"
  proof -
    have "NaN \<notin> set c" using oc that len by (auto simp: in_set_conv_nth)
    then show ?thesis by (rule ffill_id)
  qed
qed


lemma ffill_head: "NaN \<notin> set (tl c) \<Longrightarrow> ffill c = c"
  by (cases c) (auto simp: ffill_def ffill_from_id)

text \<open>
  Claim C3, as amended. Let instrument X miss its price at row \<open>k\<close> (timestamp t) while
  every other cell is a strictly positive price. Then \<open>continuously_compound_returns\<close>
  removes the first row, row \<open>k\<close> and row \<open>k + 1\<close> for every instrument, not only for
  X, and keeps each instrument's log returns at all other rows unchanged.
  \<open>simple_returns\<close> does the same when \<open>pct_change\<close> does not fill (or when \<open>k\<close> is the
  first row). When \<open>pct_change\<close> forward fills and \<open>k\<close> is not the first row, only the
  first row is removed: X's returns are computed from its filled prices and the other
  instruments' prices are untouched by the fill.
\<close>

theorem missing_price_drops_whole_rows:
  assumes wf: "\<forall>(name, c) \<in> set cols. length c = length idx"
    and cells: "\<forall>(name, c) \<in> set cols. \<forall>i < length idx. c ! i = NaN \<or> is_price (c ! i)"
    and only: "\<forall>(name, c) \<in> set cols. \<forall>i < length idx. c ! i = NaN \<longrightarrow> name = x \<and> i = k"
    and X: "(x, xs) \<in> set cols" "k < length idx" "xs ! k = NaN"
  shows "continuously_compound_returns \<lparr>index = idx, columns = cols\<rparr>
       = \<lparr>index = nths idx (- {0, k, Suc k}),
          columns = map (\<lambda>(name, c). (name, nths (log_col c) (- {0, k, Suc k}))) cols\<rparr>
     \<and> ((fm = NoFill \<or> k = 0) \<longrightarrow>
          simple_returns fm \<lparr>index = idx, columns = cols\<rparr>
            = \<lparr>index = nths idx (- {0, k, Suc k}),
               columns = map (\<lambda>(name, c). (name, nths (pct_col c) (- {0, k, Suc k}))) cols\<rparr>)
     \<and> ((fm = Pad \<and> 0 < k) \<longrightarrow>
          simple_returns fm \<lparr>index = idx, columns = cols\<rparr>
            = \<lparr>index = tl idx,
               columns = map (\<lambda>(name, c). (name, tl (pct_col (ffill c)))) cols\<rparr>
          \<and> (\<forall>(name, c) \<in> set cols. name \<noteq> x \<longrightarrow> ffill c = c))"
proof -
  let ?fr = "\<lparr>index = idx, columns = cols\<rparr>"
  let ?S = "- {0, k, Suc k} :: nat set"
  have wfl: "\<forall>(name, c) \<in> set (map (\<lambda>(name, c). (name, log_col c)) cols). length c = length idx"
    using wf by auto
  have wfp: "\<forall>(name, c) \<in> set (map (\<lambda>(name, c). (name, pct_col c)) cols). length c = length idx"
    using wf by auto
  have a: "continuously_compound_returns ?fr
       = \<lparr>index = nths idx ?S, columns = map (\<lambda>(name, c). (name, nths (log_col c) ?S)) cols\<rparr>"
    unfolding continuously_compound_returns_def log_frame
    using dropna_rows [OF wfl only_gap_rows(2) [OF wf cells only X]]
    by (simp add: comp_def case_prod_unfold)
  have b: "simple_returns fm ?fr
       = \<lparr>index = nths idx ?S, columns = map (\<lambda>(name, c). (name, nths (pct_col c) ?S)) cols\<rparr>"
    if fm: "fm = NoFill \<or> k = 0"
  proof -
    have "map (\<lambda>(name, c). (name, pct_col (case fm of Pad \<Rightarrow> ffill c | NoFill \<Rightarrow> c))) cols
        = map (\<lambda>(name, c). (name, pct_col c)) cols"
    proof (cases fm)
      case NoFill
      then show ?thesis by simp
    next
      case Pad
      then have k0: "k = 0" using fm by simp
      have "ffill c = c" if c: "(name, c) \<in> set cols" for name c
      proof -
        have len: "length c = length idx" using wf c by auto
        have oc: "\<forall>i < length idx. c ! i = NaN \<longrightarrow> name = x \<and> i = k" using only c by auto
        have h: "\<forall>i. Suc i < length c \<longrightarrow> c ! Suc i \<noteq> NaN"
          using oc len k0 by auto
        have "NaN \<notin> set (tl c)"
        proof
          assume "NaN \<in> set (tl c)"
          then obtain i where "i < length (tl c)" "tl c ! i = NaN"
            by (auto simp: in_set_conv_nth)
          then show False using h by (simp add: nth_tl)
        qed
        then show ?thesis by (rule ffill_head)
      qed
      then show ?thesis using Pad by (intro map_cong [OF refl]) auto
    qed
    then have pc: "pct_change fm ?fr
        = \<lparr>index = idx, columns = map (\<lambda>(name, c). (name, pct_col c)) cols\<rparr>"
      unfolding pct_change_frame by simp
    show ?thesis
      unfolding simple_returns_def pc
      using dropna_rows [OF wfp only_gap_rows(1) [OF wf cells only X]]
      by (simp add: comp_def case_prod_unfold)
  qed
  have c: "simple_returns fm ?fr
       = \<lparr>index = tl idx, columns = map (\<lambda>(name, c). (name, tl (pct_col (ffill c)))) cols\<rparr>"
    if fm: "fm = Pad" "0 < k"
  proof -
    let ?raw = "map (\<lambda>(name, c). (name, pct_col (ffill c))) cols"
    have pc: "pct_change fm ?fr = \<lparr>index = idx, columns = ?raw\<rparr>"
      unfolding pct_change_frame using fm(1) by simp
    have ne: "?raw \<noteq> []" using X(1) by auto
    have wfr: "\<forall>(name, c) \<in> set ?raw. length c = length idx" using wf by auto
    have nan: "(pct_col (ffill c) ! i = NaN) = (i = 0)"
      if c: "(name, c) \<in> set cols" and i: "i < length idx" for name c i
    proof -
      have len: "length (ffill c) = length idx" using wf c by auto
      have pr: "\<forall>v \<in> set (ffill c). is_price v"
        using padded_columns(1) [OF wf cells only fm(2) X(2) c] .
      have ok: "\<forall>j < length (ffill c). ffill c ! j = NaN \<or> is_price (ffill c ! j)"
        using pr by simp
      have "ffill c ! j \<noteq> NaN" if "j < length (ffill c)" for j
        using pr that by (auto simp: is_price_def dest!: nth_mem split: fval.splits)
      then show ?thesis using return_nan_iff(1) [OF _ ok, of i] i len by auto
    qed
    have nan': "\<forall>(name, c) \<in> set ?raw. \<forall>i < length idx. (c ! i = NaN) = (i = 0)"
      using nan by auto
    show ?thesis
      unfolding simple_returns_def pc using dropna_first_row [OF ne wfr nan']
      by (simp add: comp_def case_prod_unfold)
  qed
  have d: "\<forall>(name, c) \<in> set cols. name \<noteq> x \<longrightarrow> ffill c = c" if "fm = Pad" "0 < k"
    using padded_columns(2) [OF wf cells only that(2) X(2)] by auto
  show ?thesis using a b c d by blast
qed

theorem missing_price_drops_whole_rows_witness:
  "continuously_compound_returns gap_frame
     = \<lparr>index = [4, 5],
        columns = [(''X'', [Fin (ln 2), Fin (ln 2)]), (''Y'', [Fin (ln 2), Fin (ln 2)])]\<rparr>
   \<and> simple_returns NoFill gap_frame
     = \<lparr>index = [4, 5], columns = [(''X'', [Fin 1, Fin 1]), (''Y'', [Fin 1, Fin 1])]\<rparr>
   \<and> simple_returns Pad gap_frame
     = \<lparr>index = [2, 3, 4, 5],
        columns = [(''X'', [Fin 0, Fin 0, Fin 1, Fin 1]), (''Y'', [Fin 1, Fin 1, Fin 1, Fin 1])]\<rparr>"
proof -
  let ?xs = "[Fin 1, NaN, Fin 1, Fin 2, Fin 4]"
  let ?ys = "[Fin 1, Fin 2, Fin 4, Fin 8, Fin 16]"
  let ?cols = "[(''X'', ?xs), (''Y'', ?ys)]"
  let ?idx = "[1, 2, 3, 4, 5 :: nat]"
  have g: "gap_frame = \<lparr>index = ?idx, columns = ?cols\<rparr>" by (simp add: gap_frame_def)
  have wf: "\<forall>(name, c) \<in> set ?cols. length c = length ?idx" by simp
  have cells: "\<forall>(name, c) \<in> set ?cols. \<forall>i < length ?idx. c ! i = NaN \<or> is_price (c ! i)"
    by (auto simp: is_price_def nth_Cons' )
  have only: "\<forall>(name, c) \<in> set ?cols. \<forall>i < length ?idx. c ! i = NaN \<longrightarrow> name = ''X'' \<and> i = 1"
    by (auto simp: nth_Cons' split: if_splits)
  have X: "(''X'', ?xs) \<in> set ?cols" "1 < length ?idx" "?xs ! 1 = NaN" by simp_all
  have S: "nths [a, b, c, d, e] (- {0, Suc 0, Suc (Suc 0)}) = [d, e]" for a b c d e :: 'a
    by (simp add: nths_Cons)
  have l: "log_col ?xs = [NaN, NaN, NaN, Fin (ln 2), Fin (ln 2)]"
      "log_col ?ys = [NaN, Fin (ln 2), Fin (ln 2), Fin (ln 2), Fin (ln 2)]"
    by (simp_all add: eval_defs)
  have p: "pct_col ?xs = [NaN, NaN, NaN, Fin 1, Fin 1]"
      "pct_col ?ys = [NaN, Fin 1, Fin 1, Fin 1, Fin 1]"
      "pct_col (ffill ?xs) = [NaN, Fin 0, Fin 0, Fin 1, Fin 1]"
      "pct_col (ffill ?ys) = [NaN, Fin 1, Fin 1, Fin 1, Fin 1]"
    by (simp_all add: eval_defs)
  show ?thesis
    using missing_price_drops_whole_rows [OF wf cells only X, of NoFill]
      missing_price_drops_whole_rows [OF wf cells only X, of Pad]
    unfolding g by (simp add: S l p)
qed

text \<open>
  Counterexample to claim C3 as stated: X misses its price at timestamp 2 of 1..5, Y
  misses none. The log returns (and the simple returns without filling) keep the
  timestamps 4 and 5 only, so Y has lost its returns at 2 and 3; with forward filling
  the simple returns keep X's rows at 2 and 3.
\<close>

theorem other_instruments_lose_rows_counterexample:
  "index gap_frame = [1, 2, 3, 4, 5]
   \<and> columns gap_frame = [(''X'', [Fin 1, NaN, Fin 1, Fin 2, Fin 4]),
                          (''Y'', [Fin 1, Fin 2, Fin 4, Fin 8, Fin 16])]
   \<and> index (continuously_compound_returns gap_frame) = [4, 5]
   \<and> lookup_column (continuously_compound_returns gap_frame) ''Y'' = Some [Fin (ln 2), Fin (ln 2)]
   \<and> index (simple_returns NoFill gap_frame) = [4, 5]
   \<and> lookup_column (simple_returns NoFill gap_frame) ''Y'' = Some [Fin 1, Fin 1]
   \<and> index (simple_returns Pad gap_frame) = [2, 3, 4, 5]
   \<and> lookup_column (simple_returns Pad gap_frame) ''X'' = Some [Fin 0, Fin 0, Fin 1, Fin 1]"
  by (simp add: gap_frame_def eval_defs lookup_column_def)

section \<open>The fallback of the price download\<close>













end
